theory Spec2Isabelle
  imports Main "HOL-Library.Sublist" "HOL-Library.Multiset"
begin

section \<open>Python values used by the aggregation pipeline\<close>

text \<open>
  A Python \<^verbatim>\<open>str\<close> is a sequence of Unicode code points, so slicing and \<^verbatim>\<open>len\<close>
  count code points. ASCII literals are written through \<open>u\<close>; other literals are
  given by their code points.
\<close>

type_synonym pystr = "nat list"

definition u :: "string \<Rightarrow> pystr" where
  "u s = map of_char s"

text \<open>
  An exception is its class and the text \<^verbatim>\<open>str(e)\<close> gives for it. \<open>LibraryError\<close> stands
  for any exception class raised below the repository's own code (transport, parser).
\<close>

datatype exn_class =
    ValueError | TypeError | OverflowError | KeyError | AttributeError | ZeroDivisionError
  | Exception | LibraryError

type_synonym exn = "exn_class \<times> pystr"

text \<open>JSON-shaped values: what \<^verbatim>\<open>response.json()\<close> returns and what a request body holds.\<close>

datatype pyval =
    PNone
  | PBool bool
  | PInt int
  | PStr pystr
  | PList "pyval list"
  | PDict "(pystr \<times> pyval) list"

text \<open>
  A naive \<^verbatim>\<open>datetime\<close> is a point on the proleptic Gregorian time line; it is held as
  the number of microseconds since 0001-01-01 00:00:00, so that the comparison of two
  datetimes is the comparison of these numbers.
\<close>

type_synonym datetime = int

text \<open>An entry of a parsed feed: every attribute may be absent.\<close>

record raw_entry =
  e_title :: "pystr option"
  e_link :: "pystr option"
  e_summary :: "pystr option"
  e_description :: "pystr option"
  e_published_parsed :: "int list option"
  e_updated_parsed :: "int list option"

datatype http_method = GET | POST

record http_request =
  req_method :: http_method
  req_url :: pystr
  req_params :: "(pystr \<times> pystr) list"
  req_json :: "pyval option"

record http_response =
  status_code :: int
  resp_text :: pystr
  resp_json :: "exn + pyval"

text \<open>
  The environment of one run. Functions of the Python standard library whose tables are
  not part of the repository are parameters: \<^verbatim>\<open>str.lower\<close>, \<^verbatim>\<open>html.unescape\<close>,
  \<^verbatim>\<open>hashlib.md5(s.encode()).hexdigest()\<close> and \<^verbatim>\<open>datetime.strftime\<close>. So is the world
  outside the process: \<open>datetime_now k\<close> is what the \<open>k\<close>-th call of \<^verbatim>\<open>datetime.now()\<close>
  returns, \<open>feedparser_parse url\<close> is the entry list \<^verbatim>\<open>feedparser.parse(url).entries\<close>
  or the exception raised, \<open>requests_send k r\<close> is the answer to request \<open>r\<close> when it is
  the \<open>k\<close>-th HTTP exchange of the run, and \<open>api_base\<close> is the configured REST root.
\<close>

record env =
  str_lower :: "pystr \<Rightarrow> pystr"
  html_unescape :: "pystr \<Rightarrow> pystr"
  md5_hexdigest :: "pystr \<Rightarrow> pystr"
  strftime :: "pystr \<Rightarrow> datetime \<Rightarrow> pystr"
  datetime_now :: "nat \<Rightarrow> datetime"
  feedparser_parse :: "pystr \<Rightarrow> exn + raw_entry list"
  requests_send :: "nat \<Rightarrow> http_request \<Rightarrow> exn + http_response"
  api_base :: pystr

subsection \<open>Slices, \<^verbatim>\<open>str(int)\<close>, \<^verbatim>\<open>str.join\<close>\<close>




fun str_nat :: "nat \<Rightarrow> pystr" where
  "str_nat n = (if n < 10 then [48 + n] else str_nat (n div 10) @ [48 + n mod 10])"

definition str_int :: "int \<Rightarrow> pystr" where
  "str_int i = (if i < 0 then 45 # str_nat (nat (- i)) else str_nat (nat i))"


subsection \<open>\<^verbatim>\<open>datetime(...)\<close> and \<^verbatim>\<open>datetime - timedelta(hours=h)\<close>\<close>

definition is_leap :: "int \<Rightarrow> bool" where
  "is_leap y = (y mod 4 = 0 \<and> (y mod 100 \<noteq> 0 \<or> y mod 400 = 0))"

definition days_in_month :: "int \<Rightarrow> int \<Rightarrow> int" where
  "days_in_month y m =
     (if m = 2 then (if is_leap y then 29 else 28)
      else if m = 4 \<or> m = 6 \<or> m = 9 \<or> m = 11 then 30 else 31)"

definition days_before_year :: "int \<Rightarrow> int" where
  "days_before_year y = (y - 1) * 365 + (y - 1) div 4 - (y - 1) div 100 + (y - 1) div 400"

definition days_before_month :: "int \<Rightarrow> int \<Rightarrow> int" where
  "days_before_month y m =
     [0, 31, 59, 90, 120, 151, 181, 212, 243, 273, 304, 334] ! nat (m - 1)
       + (if 2 < m \<and> is_leap y then 1 else 0)"

definition ymd2ord :: "int \<Rightarrow> int \<Rightarrow> int \<Rightarrow> int" where
  "ymd2ord y m d = days_before_year y + days_before_month y m + d"

definition MAX_DATETIME :: datetime where
  "MAX_DATETIME = 3652059 * 86400000000 - 1"

text \<open>
  \<^verbatim>\<open>datetime(year, month, day, hour, minute, second)\<close>: the fields are range-checked in
  this order, and a field out of range raises \<^verbatim>\<open>ValueError\<close>.
\<close>

definition mk_datetime :: "int \<Rightarrow> int \<Rightarrow> int \<Rightarrow> int \<Rightarrow> int \<Rightarrow> int \<Rightarrow> exn + datetime" where
  "mk_datetime y m d hh mm ss =
     (if y < 1 \<or> 9999 < y then Inl (ValueError, u ''year '' @ str_int y @ u '' is out of range'')
      else if m < 1 \<or> 12 < m then Inl (ValueError, u ''month must be in 1..12'')
      else if d < 1 \<or> days_in_month y m < d then Inl (ValueError, u ''day is out of range for month'')
      else if hh < 0 \<or> 23 < hh then Inl (ValueError, u ''hour must be in 0..23'')
      else if mm < 0 \<or> 59 < mm then Inl (ValueError, u ''minute must be in 0..59'')
      else if ss < 0 \<or> 59 < ss then Inl (ValueError, u ''second must be in 0..59'')
      else Inr (((((ymd2ord y m d - 1) * 24 + hh) * 60 + mm) * 60 + ss) * 1000000))"

text \<open>
  \<^verbatim>\<open>datetime(*t[:6])\<close> for a tuple \<open>t\<close>: year, month and day are required, the time fields
  default to 0.
\<close>

fun datetime_of_args :: "int list \<Rightarrow> exn + datetime" where
  "datetime_of_args [y, m, d] = mk_datetime y m d 0 0 0"
| "datetime_of_args [y, m, d, hh] = mk_datetime y m d hh 0 0"
| "datetime_of_args [y, m, d, hh, mm] = mk_datetime y m d hh mm 0"
| "datetime_of_args [y, m, d, hh, mm, ss] = mk_datetime y m d hh mm ss"
| "datetime_of_args args = Inl (TypeError, u ''function missing required argument'')"

text \<open>
  \<^verbatim>\<open>now - timedelta(hours=h)\<close>: \<^verbatim>\<open>timedelta\<close> refuses more than 999999999 days, and the
  difference must be a datetime of the years 1 to 9999.
\<close>

definition sub_hours :: "datetime \<Rightarrow> int \<Rightarrow> exn + datetime" where
  "sub_hours now h =
     (if h div 24 < - 999999999 \<or> 999999999 < h div 24
      then Inl (OverflowError, u ''days out of range for timedelta'')
      else if now - h * 3600000000 < 0 \<or> MAX_DATETIME < now - h * 3600000000
      then Inl (OverflowError, u ''date value out of range'')
      else Inr (now - h * 3600000000))"

section \<open>news_fetcher.py\<close>

record NewsItem =
  title :: pystr
  link :: pystr
  summary :: pystr
  source :: pystr
  published :: datetime

text \<open>\<^verbatim>\<open>NewsItem.id\<close>: the first 12 hex digits of the MD5 digest of the link.\<close>

definition NewsItem_id :: "env \<Rightarrow> NewsItem \<Rightarrow> pystr" where
  "NewsItem_id E item = take 12 (md5_hexdigest E (link item))"

text \<open>\<^verbatim>\<open>RSS_SOURCES\<close>, in the order of the dictionary: source name and URL.\<close>

definition RSS_SOURCES :: "(pystr \<times> pystr) list" where
  "RSS_SOURCES =
     [(u ''Hacker News (AI)'', u ''https://hnrss.org/newest?q=AI+agent+OR+LLM+OR+GPT+OR+Claude''),
      (u ''MIT Tech Review AI'', u ''https://www.technologyreview.com/topic/artificial-intelligence/feed''),
      (u ''OpenAI Blog'', u ''https://openai.com/blog/rss.xml''),
      (u ''Google AI Blog'', u ''https://blog.google/technology/ai/rss/''),
      (u ''Hugging Face Blog'', u ''https://huggingface.co/blog/feed.xml''),
      (u ''The Verge AI'', u ''https://www.theverge.com/rss/ai-artificial-intelligence/index.xml''),
      ([26426, 22120, 20043, 24515], u ''https://rsshub.app/jiqizhixin''),
      ([37327, 23376, 20301], u ''https://rsshub.app/qbitai''),
      ([65, 73, 31185, 25216, 35780, 35770], u ''https://rsshub.app/leiphone/category/ai'')]"

text \<open>\<^verbatim>\<open>KEYWORDS\<close>; the ones outside ASCII are listed by code point.\<close>

definition KEYWORDS :: "pystr list" where
  "KEYWORDS =
     [u ''agent'', u ''ai agent'', u ''llm'', u ''gpt'', u ''claude'', u ''gemini'',
      u ''langchain'', u ''autogpt'', u ''chatgpt'', u ''copilot'',
      [22823, 27169, 22411], [26234, 33021, 20307], [65, 73, 21161, 25163],
      [20154, 24037, 26234, 33021],
      u ''anthropic'', u ''openai'', [26426, 22120, 20154], [33258, 21160, 21270]]"

subsection \<open>\<^verbatim>\<open>_clean_html\<close>\<close>

text \<open>
  \<^verbatim>\<open>re.sub(r'<[^>]+>', '', text)\<close>: a match starts at a \<^verbatim>\<open><\<close> that is followed by at
  least one character other than \<^verbatim>\<open>>\<close> and, after those, by a \<^verbatim>\<open>>\<close>; the scan resumes
  behind the match.
\<close>

function remove_tags :: "pystr \<Rightarrow> pystr" where
  "remove_tags [] = []"
| "remove_tags (c # cs) =
     (if c = 60 \<and> takeWhile (\<lambda>x. x \<noteq> 62) cs \<noteq> [] \<and> dropWhile (\<lambda>x. x \<noteq> 62) cs \<noteq> []
      then remove_tags (tl (dropWhile (\<lambda>x. x \<noteq> 62) cs))
      else c # remove_tags cs)"
  by pat_completeness auto
termination
proof (relation "measure length")
  show "wf (measure length)" by simp
next
  fix c :: nat and cs :: pystr
  have "length (tl (dropWhile (\<lambda>x. x \<noteq> 62) cs)) \<le> length (dropWhile (\<lambda>x. x \<noteq> 62) cs)"
    by simp
  also have "\<dots> \<le> length cs" by (rule length_dropWhile_le)
  finally show "(tl (dropWhile (\<lambda>x. x \<noteq> 62) cs), c # cs) \<in> measure length" by simp
next
  fix c :: nat and cs :: pystr
  show "(cs, c # cs) \<in> measure length" by simp
qed

text \<open>The characters \<^verbatim>\<open>\s\<close> matches in a \<^verbatim>\<open>str\<close> pattern, which \<^verbatim>\<open>str.strip()\<close> removes.\<close>

definition is_space :: "nat \<Rightarrow> bool" where
  "is_space c =
     ((9 \<le> c \<and> c \<le> 13) \<or> (28 \<le> c \<and> c \<le> 32) \<or> c = 133 \<or> c = 160 \<or> c = 5760
      \<or> (8192 \<le> c \<and> c \<le> 8202) \<or> c = 8232 \<or> c = 8233 \<or> c = 8239 \<or> c = 8287 \<or> c = 12288)"

text \<open>\<^verbatim>\<open>re.sub(r'\s+', ' ', text)\<close>\<close>

function collapse_space :: "pystr \<Rightarrow> pystr" where
  "collapse_space [] = []"
| "collapse_space (c # cs) =
     (if is_space c then 32 # collapse_space (dropWhile is_space cs)
      else c # collapse_space cs)"
  by pat_completeness auto
termination
proof (relation "measure length")
  show "wf (measure length)" by simp
next
  fix c :: nat and cs :: pystr
  have "length (dropWhile is_space cs) \<le> length cs" by (rule length_dropWhile_le)
  then show "(dropWhile is_space cs, c # cs) \<in> measure length" by simp
next
  fix c :: nat and cs :: pystr
  show "(cs, c # cs) \<in> measure length" by simp
qed

definition strip :: "pystr \<Rightarrow> pystr" where
  "strip s = rev (dropWhile is_space (rev (dropWhile is_space s)))"

definition clean_html :: "env \<Rightarrow> pystr \<Rightarrow> pystr" where
  "clean_html E txt = strip (collapse_space (remove_tags (html_unescape E txt)))"

subsection \<open>\<^verbatim>\<open>fetch_rss\<close>\<close>

text \<open>
  The body of the loop over the entries, for one entry; \<open>now\<close> is the reading of
  \<^verbatim>\<open>datetime.now()\<close> taken at the start of the iteration. A value that is absent,
  \<^verbatim>\<open>None\<close> or an empty tuple is false in the two tests on the parsed times.
\<close>

definition entry_published :: "datetime \<Rightarrow> raw_entry \<Rightarrow> exn + datetime" where
  "entry_published now entry =
     (case e_published_parsed entry of
        Some (x # xs) \<Rightarrow> datetime_of_args (take 6 (x # xs))
      | _ \<Rightarrow>
        (case e_updated_parsed entry of
           Some (y # ys) \<Rightarrow> datetime_of_args (take 6 (y # ys))
         | _ \<Rightarrow> Inr now))"

definition entry_summary :: "env \<Rightarrow> raw_entry \<Rightarrow> pystr" where
  "entry_summary E entry =
     (case e_summary entry of
        Some s \<Rightarrow> take 500 (clean_html E s)
      | None \<Rightarrow>
        (case e_description entry of
           Some d \<Rightarrow> take 500 (clean_html E d)
         | None \<Rightarrow> []))"

definition normalize_entry :: "env \<Rightarrow> datetime \<Rightarrow> pystr \<Rightarrow> raw_entry \<Rightarrow> exn + NewsItem" where
  "normalize_entry E now source_name entry =
     (case entry_published now entry of
        Inl e \<Rightarrow> Inl e
      | Inr p \<Rightarrow>
          Inr \<lparr> title = (case e_title entry of Some t \<Rightarrow> t | None \<Rightarrow> u ''Untitled''),
                link = (case e_link entry of Some l \<Rightarrow> l | None \<Rightarrow> []),
                summary = entry_summary E entry,
                source = source_name,
                published = p \<rparr>)"

text \<open>
  The loop of \<^verbatim>\<open>fetch_rss\<close> runs inside one \<^verbatim>\<open>try\<close>: an exception in an iteration ends
  the loop, and the items appended so far are returned. \<open>t\<close> counts the readings of the
  clock.
\<close>

fun fetch_rss_loop :: "env \<Rightarrow> nat \<Rightarrow> pystr \<Rightarrow> raw_entry list \<Rightarrow> NewsItem list \<Rightarrow> NewsItem list \<times> nat" where
  "fetch_rss_loop E t source_name [] items = (items, t)"
| "fetch_rss_loop E t source_name (entry # rest) items =
     (case normalize_entry E (datetime_now E t) source_name entry of
        Inl e \<Rightarrow> (items, Suc t)
      | Inr item \<Rightarrow> fetch_rss_loop E (Suc t) source_name rest (items @ [item]))"

definition fetch_rss :: "env \<Rightarrow> nat \<Rightarrow> pystr \<Rightarrow> pystr \<Rightarrow> NewsItem list \<times> nat" where
  "fetch_rss E t url source_name =
     (case feedparser_parse E url of
        Inl e \<Rightarrow> ([], t)
      | Inr entries \<Rightarrow> fetch_rss_loop E t source_name (take 20 entries) [])"

subsection \<open>\<^verbatim>\<open>_is_relevant\<close> and the time window\<close>

definition is_relevant :: "env \<Rightarrow> NewsItem \<Rightarrow> bool" where
  "is_relevant E item =
     list_ex (\<lambda>kw. sublist (str_lower E kw) (str_lower E (title item @ [32] @ summary item)))
       KEYWORDS"

text \<open>The first conjunct of the test in \<^verbatim>\<open>fetch_all\<close>: \<^verbatim>\<open>item.published >= cutoff_time\<close>.\<close>

definition in_window :: "datetime \<Rightarrow> NewsItem \<Rightarrow> bool" where
  "in_window cutoff_time item = (cutoff_time \<le> published item)"

subsection \<open>\<^verbatim>\<open>fetch_all\<close>\<close>

fun fetch_sources :: "env \<Rightarrow> datetime \<Rightarrow> nat \<Rightarrow> (pystr \<times> pystr) list \<Rightarrow> NewsItem list \<Rightarrow> NewsItem list \<times> nat" where
  "fetch_sources E cutoff_time t [] all_items = (all_items, t)"
| "fetch_sources E cutoff_time t ((source_name, url) # rest) all_items =
     (case fetch_rss E t url source_name of
        (items, t') \<Rightarrow>
          fetch_sources E cutoff_time t' rest
            (all_items @ filter (\<lambda>item. in_window cutoff_time item \<and> is_relevant E item) items))"

text \<open>
  \<^verbatim>\<open>
  seen = set()
  unique_items = []
  for item in all_items:
      if item.id not in seen:
          seen.add(item.id)
          unique_items.append(item)
  \<close>
\<close>

fun dedup_loop :: "env \<Rightarrow> pystr set \<Rightarrow> NewsItem list \<Rightarrow> NewsItem list \<Rightarrow> NewsItem list" where
  "dedup_loop E seen unique_items [] = unique_items"
| "dedup_loop E seen unique_items (item # rest) =
     (if NewsItem_id E item \<notin> seen
      then dedup_loop E (insert (NewsItem_id E item) seen) (unique_items @ [item]) rest
      else dedup_loop E seen unique_items rest)"

definition deduplicate :: "env \<Rightarrow> NewsItem list \<Rightarrow> NewsItem list" where
  "deduplicate E all_items = dedup_loop E {} [] all_items"

text \<open>
  \<^verbatim>\<open>unique_items.sort(key=lambda x: x.published, reverse=True)\<close>. \<^verbatim>\<open>list.sort\<close> is stable,
  and with \<^verbatim>\<open>reverse=True\<close> it keeps elements of equal key in their original order: the
  list is reversed, sorted stably in ascending order, and reversed again.
\<close>

definition sort_by_published_reverse :: "NewsItem list \<Rightarrow> NewsItem list" where
  "sort_by_published_reverse xs = rev (sort_key published (rev xs))"

text \<open>
  \<open>fetch_all\<close> from the \<open>t\<close>-th reading of the clock on: the result, or the exception of
  the cutoff computation, and the number of readings taken.
\<close>

definition fetch_all :: "env \<Rightarrow> nat \<Rightarrow> int \<Rightarrow> (exn + NewsItem list) \<times> nat" where
  "fetch_all E t hours =
     (case sub_hours (datetime_now E t) hours of
        Inl e \<Rightarrow> (Inl e, Suc t)
      | Inr cutoff_time \<Rightarrow>
          (case fetch_sources E cutoff_time (Suc t) RSS_SOURCES [] of
             (all_items, t') \<Rightarrow> (Inr (sort_by_published_reverse (deduplicate E all_items)), t')))"

text \<open>
  For stating properties: the items the sources hand to the filters in one run, in fetch
  order (the concatenation of the lists \<^verbatim>\<open>fetch_rss\<close> returns), and the raw entries that
  carry neither a publish nor an update time.
\<close>

fun fetched_items :: "env \<Rightarrow> nat \<Rightarrow> (pystr \<times> pystr) list \<Rightarrow> NewsItem list" where
  "fetched_items E t [] = []"
| "fetched_items E t ((source_name, url) # rest) =
     (case fetch_rss E t url source_name of
        (items, t') \<Rightarrow> items @ fetched_items E t' rest)"

text \<open>The values computed before the first exception in a sequence of outcomes.\<close>

fun ok_prefix :: "(exn + 'a) list \<Rightarrow> 'a list" where
  "ok_prefix [] = []"
| "ok_prefix (Inl e # rs) = []"
| "ok_prefix (Inr x # rs) = x # ok_prefix rs"

definition undated :: "raw_entry \<Rightarrow> bool" where
  "undated entry =
     ((e_published_parsed entry = None \<or> e_published_parsed entry = Some [])
      \<and> (e_updated_parsed entry = None \<or> e_updated_parsed entry = Some []))"

subsection \<open>\<^verbatim>\<open>format_as_blog_post\<close>\<close>







section \<open>wp_publisher.py\<close>
















subsection \<open>\<^verbatim>\<open>batch_publish\<close>\<close>









section \<open>auto_publish.py\<close>




subsection \<open>\<^verbatim>\<open>publish_multiple\<close>\<close>











section \<open>A concrete environment for evaluation\<close>

text \<open>
  Instances of the library parameters on which the definitions can be run:
  \<open>ascii_lower\<close> is \<^verbatim>\<open>str.lower\<close> on ASCII text, \<open>posix_strftime\<close> renders the directives
  \<^verbatim>\<open>%Y %m %d %H %M\<close> for years of four digits, and \<open>sample_digest\<close> stands in for the
  MD5 hex digest (equal links have equal digests, as with MD5).
\<close>

definition ascii_lower :: "pystr \<Rightarrow> pystr" where
  "ascii_lower s = map (\<lambda>c. if 65 \<le> c \<and> c \<le> 90 then c + 32 else c) s"

definition sample_digest :: "pystr \<Rightarrow> pystr" where
  "sample_digest s = concat (map (\<lambda>c. [97 + c div 16 mod 16, 97 + c mod 16]) (rev s))"

text \<open>\<^verbatim>\<open>_ord2ymd\<close> of the datetime module: year, month and day of a day number.\<close>

definition ord2ymd :: "int \<Rightarrow> int \<times> int \<times> int" where
  "ord2ymd ordinal =
     (let n = ordinal - 1;
          n400 = n div 146097; n = n mod 146097;
          n100 = n div 36524; n = n mod 36524;
          n4 = n div 1461; n = n mod 1461;
          n1 = n div 365; n = n mod 365;
          year = n400 * 400 + 1 + n100 * 100 + n4 * 4 + n1
      in if n1 = 4 \<or> n100 = 4 then (year - 1, 12, 31)
         else
           (let leapyear = (n1 = 3 \<and> (n4 \<noteq> 24 \<or> n100 = 3));
                month = (n + 50) div 32;
                preceding = [0, 31, 59, 90, 120, 151, 181, 212, 243, 273, 304, 334] ! nat (month - 1)
                              + (if 2 < month \<and> leapyear then 1 else 0)
            in if n < preceding
               then (let month' = month - 1;
                         preceding' = preceding
                           - ([31, 28, 31, 30, 31, 30, 31, 31, 30, 31, 30, 31] ! nat (month' - 1)
                              + (if month' = 2 \<and> leapyear then 1 else 0))
                     in (year, month', n - preceding' + 1))
               else (year, month, n - preceding + 1)))"

definition pad2 :: "int \<Rightarrow> pystr" where
  "pad2 i = (if i < 10 then 48 # str_int i else str_int i)"

definition strftime_directive :: "nat \<Rightarrow> datetime \<Rightarrow> pystr" where
  "strftime_directive c dt =
     (let days = dt div 86400000000; secs = dt mod 86400000000 div 1000000
      in if c = 89 then (case ord2ymd (days + 1) of (y, m, d) \<Rightarrow> str_int y)
         else if c = 109 then (case ord2ymd (days + 1) of (y, m, d) \<Rightarrow> pad2 m)
         else if c = 100 then (case ord2ymd (days + 1) of (y, m, d) \<Rightarrow> pad2 d)
         else if c = 72 then pad2 (secs div 3600)
         else if c = 77 then pad2 (secs mod 3600 div 60)
         else [37, c])"

fun posix_strftime :: "pystr \<Rightarrow> datetime \<Rightarrow> pystr" where
  "posix_strftime [] dt = []"
| "posix_strftime [c] dt = [c]"
| "posix_strftime (c # d # rest) dt =
     (if c = 37 then strftime_directive d dt @ posix_strftime rest dt
      else c # posix_strftime (d # rest) dt)"

text \<open>
  A sink that answers by the position of the exchange in the run: the probe of the
  connection, six taxonomy calls, a post refused with status 500, and then every post
  accepted.
\<close>

definition sample_sink :: "nat \<Rightarrow> http_request \<Rightarrow> exn + http_response" where
  "sample_sink k r =
     (if k = 0
      then Inr \<lparr> status_code = 200, resp_text = [],
                 resp_json = Inr (PDict [(u ''name'', PStr (u ''admin''))]) \<rparr>
      else if k \<le> 6
      then Inr \<lparr> status_code = 201, resp_text = [],
                 resp_json = Inr (PDict [(u ''id'', PInt (int k))]) \<rparr>
      else if k = 7
      then Inr \<lparr> status_code = 500, resp_text = u ''server error'',
                 resp_json = Inl (ValueError, u ''Expecting value'') \<rparr>
      else Inr \<lparr> status_code = 201, resp_text = [],
                 resp_json = Inr (PDict [(u ''id'', PInt (int k)),
                                         (u ''link'', PStr (u ''https://example.org/?p=1''))]) \<rparr>)"

text \<open>2024-01-01 10:00:00, and a clock that advances by one second per reading.\<close>

definition sample_now :: datetime where
  "sample_now = 63839700000000000"

definition sample_env :: env where
  "sample_env =
     \<lparr> str_lower = ascii_lower,
       html_unescape = (\<lambda>s. s),
       md5_hexdigest = sample_digest,
       strftime = posix_strftime,
       datetime_now = (\<lambda>k. sample_now + int k * 1000000),
       feedparser_parse = (\<lambda>url. Inr []),
       requests_send = sample_sink,
       api_base = u ''https://example.org/wp-json/wp/v2'' \<rparr>"








text \<open>
  Raw entries of two feeds, and the environment in which reading the first source of
  \<open>RSS_SOURCES\<close> has the outcome \<open>a\<close>, reading the second the outcome \<open>b\<close>, and every
  other source returns an empty feed. \<open>entry_bad\<close> carries second 60 in its parsed time.
\<close>

definition entry_gpt :: raw_entry where
  "entry_gpt = \<lparr> e_title = Some (u ''GPT''), e_link = Some (u ''L1''), e_summary = None,
                 e_description = None,
                 e_published_parsed = Some [2024, 1, 1, 9, 0, 0, 0, 1, 0],
                 e_updated_parsed = None \<rparr>"

definition entry_weather :: raw_entry where
  "entry_weather = \<lparr> e_title = Some (u ''weather''), e_link = Some (u ''L2''),
                     e_summary = None, e_description = None,
                     e_published_parsed = Some [2023, 12, 31, 4, 0, 0, 6, 365, 0],
                     e_updated_parsed = None \<rparr>"

definition entry_claude :: raw_entry where
  "entry_claude = \<lparr> e_title = Some (u ''Claude agent''), e_link = Some (u ''L3''),
                    e_summary = None, e_description = None,
                    e_published_parsed = Some [2024, 1, 1, 8, 0, 0, 0, 1, 0],
                    e_updated_parsed = None \<rparr>"

definition entry_bad :: raw_entry where
  "entry_bad = \<lparr> e_title = Some (u ''LLM''), e_link = Some (u ''L5''), e_summary = None,
                 e_description = None,
                 e_published_parsed = Some [2024, 1, 1, 9, 59, 60, 0, 1, 0],
                 e_updated_parsed = None \<rparr>"

definition entry_gpt_again :: raw_entry where
  "entry_gpt_again = \<lparr> e_title = Some (u ''GPT again''), e_link = Some (u ''L1''),
                       e_summary = Some (u ''<p>more  on GPT</p>''), e_description = None,
                       e_published_parsed = None,
                       e_updated_parsed = Some [2024, 1, 1, 9, 30, 0, 0, 1, 0] \<rparr>"

definition entry_undated :: raw_entry where
  "entry_undated = \<lparr> e_title = Some (u ''Gemini''), e_link = Some (u ''L4''),
                     e_summary = None, e_description = None,
                     e_published_parsed = None, e_updated_parsed = None \<rparr>"

definition sample_feeds ::
  "exn + raw_entry list \<Rightarrow> exn + raw_entry list \<Rightarrow> pystr \<Rightarrow> exn + raw_entry list" where
  "sample_feeds a b url =
     (if url = snd (RSS_SOURCES ! 0) then a
      else if url = snd (RSS_SOURCES ! 1) then b
      else Inr [])"

definition sample_run :: "exn + raw_entry list \<Rightarrow> exn + raw_entry list \<Rightarrow> env" where
  "sample_run a b = sample_env \<lparr> feedparser_parse := sample_feeds a b \<rparr>"

text \<open>The items these entries normalize to.\<close>

definition item_gpt :: NewsItem where
  "item_gpt = \<lparr> title = u ''GPT'', link = u ''L1'', summary = [],
                source = u ''Hacker News (AI)'', published = sample_now - 3600000000 \<rparr>"

definition item_weather :: NewsItem where
  "item_weather = \<lparr> title = u ''weather'', link = u ''L2'', summary = [],
                    source = u ''Hacker News (AI)'', published = sample_now - 108000000000 \<rparr>"

definition item_claude :: NewsItem where
  "item_claude = \<lparr> title = u ''Claude agent'', link = u ''L3'', summary = [],
                   source = u ''Hacker News (AI)'', published = sample_now - 7200000000 \<rparr>"

definition item_gpt_again :: NewsItem where
  "item_gpt_again = \<lparr> title = u ''GPT again'', link = u ''L1'', summary = u ''more on GPT'',
                      source = u ''MIT Tech Review AI'', published = sample_now - 1800000000 \<rparr>"

definition item_undated :: NewsItem where
  "item_undated = \<lparr> title = u ''Gemini'', link = u ''L4'', summary = [],
                    source = u ''MIT Tech Review AI'', published = sample_now + 3000000 \<rparr>"

section \<open>The deduplication loop\<close>

lemma dedup_loop_acc:
  "dedup_loop E seen acc xs = acc @ dedup_loop E seen [] xs"
proof (induction xs arbitrary: seen acc)
  case Nil
  show ?case by simp
next
  case (Cons x xs)
  show ?case
  proof (cases "NewsItem_id E x \<in> seen")
    case True
    with Cons.IH [of seen acc] show ?thesis by simp
  next
    case False
    with Cons.IH [of "insert (NewsItem_id E x) seen" "acc @ [x]"]
      Cons.IH [of "insert (NewsItem_id E x) seen" "[x]"]
    show ?thesis by simp
  qed
qed

lemma dedup_loop_Cons:
  "dedup_loop E seen [] (x # xs) =
     (if NewsItem_id E x \<notin> seen
      then x # dedup_loop E (insert (NewsItem_id E x) seen) [] xs
      else dedup_loop E seen [] xs)"
  using dedup_loop_acc [of E "insert (NewsItem_id E x) seen" "[x]" xs] by simp

declare dedup_loop.simps(2) [simp del]

lemma dedup_loop_set:
  "set (dedup_loop E seen [] xs) \<subseteq> set xs"
  by (induction xs arbitrary: seen) (auto simp: dedup_loop_Cons)

lemma dedup_loop_fresh:
  "y \<in> set (dedup_loop E seen [] xs) \<Longrightarrow> NewsItem_id E y \<notin> seen"
  by (induction xs arbitrary: seen) (auto simp: dedup_loop_Cons split: if_splits)

lemma dedup_loop_distinct:
  "distinct (map (NewsItem_id E) (dedup_loop E seen [] xs))"
proof (induction xs arbitrary: seen)
  case Nil
  show ?case by simp
next
  case (Cons x xs)
  have "NewsItem_id E x \<notin> NewsItem_id E ` set (dedup_loop E (insert (NewsItem_id E x) seen) [] xs)"
    by (auto dest: dedup_loop_fresh)
  with Cons.IH show ?case by (simp add: dedup_loop_Cons)
qed

lemma dedup_loop_subseq:
  "subseq (dedup_loop E seen [] xs) xs"
  by (induction xs arbitrary: seen) (auto simp: dedup_loop_Cons)

lemma dedup_loop_find:
  "find (\<lambda>y. NewsItem_id E y = h) (dedup_loop E seen [] xs) =
     (if h \<in> seen then None else find (\<lambda>y. NewsItem_id E y = h) xs)"
proof (induction xs arbitrary: seen)
  case Nil
  show ?case by simp
next
  case (Cons x xs)
  show ?case
    using Cons.IH [of seen] Cons.IH [of "insert (NewsItem_id E x) seen"]
    by (auto simp: dedup_loop_Cons)
qed

lemma dedup_loop_fixed:
  "distinct (map (NewsItem_id E) ys) \<Longrightarrow> NewsItem_id E ` set ys \<inter> seen = {} \<Longrightarrow>
   dedup_loop E seen [] ys = ys"
proof (induction ys arbitrary: seen)
  case Nil
  show ?case by simp
next
  case (Cons y ys)
  from Cons.prems have a: "NewsItem_id E y \<notin> seen" by auto
  from Cons.prems have "distinct (map (NewsItem_id E) ys)"
    and "NewsItem_id E ` set ys \<inter> insert (NewsItem_id E y) seen = {}" by auto
  then have "dedup_loop E (insert (NewsItem_id E y) seen) [] ys = ys" by (rule Cons.IH)
  with a show ?case by (simp add: dedup_loop_Cons)
qed

section \<open>The Deduplicator\<close>

lemma sample_ids:
  "NewsItem_id sample_env item_gpt = [100, 98, 101, 109]"
  "NewsItem_id sample_env item_claude = [100, 100, 101, 109]"
  "NewsItem_id sample_env item_gpt_again = [100, 98, 101, 109]"
  by (simp_all add: NewsItem_id_def sample_env_def sample_digest_def item_gpt_def
      item_claude_def item_gpt_again_def u_def)

lemma sample_dedup:
  "deduplicate sample_env [item_gpt, item_claude, item_gpt_again] = [item_gpt, item_claude]"
  by (simp add: deduplicate_def dedup_loop.simps sample_ids)

text \<open>
  C5: the output of the deduplication pass has pairwise distinct fingerprints, keeps the
  relative order of the input, and for every fingerprint holds the first input item with
  that fingerprint (and none when the input has none): the source met first wins.
\<close>

theorem dedup_keeps_first_occurrences:
  "distinct (map (NewsItem_id E) (deduplicate E xs)) \<and>
   subseq (deduplicate E xs) xs \<and>
   (\<forall>h. find (\<lambda>y. NewsItem_id E y = h) (deduplicate E xs) = find (\<lambda>y. NewsItem_id E y = h) xs)"
  unfolding deduplicate_def
  by (simp add: dedup_loop_distinct dedup_loop_subseq dedup_loop_find)

theorem dedup_keeps_first_occurrences_witness:
  "deduplicate sample_env [item_gpt, item_claude, item_gpt_again] = [item_gpt, item_claude] \<and>
   distinct (map (NewsItem_id sample_env) [item_gpt, item_claude]) \<and>
   subseq [item_gpt, item_claude] [item_gpt, item_claude, item_gpt_again] \<and>
   (\<forall>h. find (\<lambda>y. NewsItem_id sample_env y = h) [item_gpt, item_claude] =
        find (\<lambda>y. NewsItem_id sample_env y = h) [item_gpt, item_claude, item_gpt_again])"
  using dedup_keeps_first_occurrences [of sample_env "[item_gpt, item_claude, item_gpt_again]"]
  unfolding sample_dedup by simp

text \<open>
  C7: the deduplication pass applied to its own output returns that output unchanged.
\<close>

theorem dedup_idempotent:
  "deduplicate E (deduplicate E xs) = deduplicate E xs"
  unfolding deduplicate_def
  by (rule dedup_loop_fixed) (simp_all add: dedup_loop_distinct)

section \<open>The Ranker\<close>



lemma sort_reverse_mset: "mset (sort_by_published_reverse xs) = mset xs"
  by (simp add: sort_by_published_reverse_def)


lemma sort_reverse_set: "set (sort_by_published_reverse xs) = set xs"
  by (simp add: sort_by_published_reverse_def)



section \<open>Reading and normalizing the sources\<close>

lemma fetch_sources_acc:
  "fst (fetch_sources E cutoff t srcs acc) =
     acc @ filter (\<lambda>item. in_window cutoff item \<and> is_relevant E item) (fetched_items E t srcs)"
proof (induction srcs arbitrary: t acc)
  case Nil
  show ?case by simp
next
  case (Cons p srcs)
  obtain n url where p: "p = (n, url)" by (cases p)
  obtain items t' where f: "fetch_rss E t url n = (items, t')" by (cases "fetch_rss E t url n")
  show ?case by (simp add: p f Cons.IH)
qed

lemma fetch_rss_loop_prefix:
  "fst (fetch_rss_loop E t name es acc) =
     acc @ ok_prefix (map (\<lambda>p. normalize_entry E (datetime_now E (fst p)) name (snd p))
                        (List.enumerate t es))"
proof (induction es arbitrary: t acc)
  case Nil
  show ?case by simp
next
  case (Cons e es)
  show ?case
  proof (cases "normalize_entry E (datetime_now E t) name e")
    case (Inl err)
    then show ?thesis by simp
  next
    case (Inr item)
    then show ?thesis by (simp add: Cons.IH)
  qed
qed

lemma fetch_rss_loop_ticks:
  "t \<le> snd (fetch_rss_loop E t name es acc) \<and> snd (fetch_rss_loop E t name es acc) \<le> t + length es"
proof (induction es arbitrary: t acc)
  case Nil
  show ?case by simp
next
  case (Cons e es)
  show ?case
  proof (cases "normalize_entry E (datetime_now E t) name e")
    case (Inl err)
    then show ?thesis by simp
  next
    case (Inr item)
    with Cons.IH [of "Suc t" "acc @ [item]"] show ?thesis by simp
  qed
qed

lemma length_ok_prefix: "length (ok_prefix rs) \<le> length rs"
  by (induction rs rule: ok_prefix.induct) simp_all

lemma ok_prefix_mem: "x \<in> set (ok_prefix rs) \<Longrightarrow> Inr x \<in> set rs"
  by (induction rs rule: ok_prefix.induct) auto

lemma fetch_rss_prefix:
  "feedparser_parse E url = Inr entries \<Longrightarrow>
   fst (fetch_rss E t url name) =
     ok_prefix (map (\<lambda>p. normalize_entry E (datetime_now E (fst p)) name (snd p))
                  (List.enumerate t (take 20 entries)))"
  by (simp add: fetch_rss_def fetch_rss_loop_prefix)

lemma fetch_rss_failed:
  "feedparser_parse E url = Inl e \<Longrightarrow> fetch_rss E t url name = ([], t)"
  by (simp add: fetch_rss_def)

lemma fetch_rss_length: "length (fst (fetch_rss E t url name)) \<le> 20"
proof (cases "feedparser_parse E url")
  case (Inl e)
  then show ?thesis by (simp add: fetch_rss_failed)
next
  case (Inr entries)
  have "length (fst (fetch_rss E t url name)) \<le> length (take 20 entries)"
    unfolding fetch_rss_prefix [OF Inr]
    by (rule order_trans [OF length_ok_prefix]) simp
  then show ?thesis by simp
qed

lemma fetch_rss_ticks:
  "t \<le> snd (fetch_rss E t url name) \<and> snd (fetch_rss E t url name) \<le> t + 20"
proof (cases "feedparser_parse E url")
  case (Inl e)
  then show ?thesis by (simp add: fetch_rss_failed)
next
  case (Inr entries)
  define r where "r = fetch_rss_loop E t name (take 20 entries) []"
  have eq: "fetch_rss E t url name = r" by (simp add: fetch_rss_def Inr r_def)
  have "t \<le> snd r" and "snd r \<le> t + length (take 20 entries)"
    using fetch_rss_loop_ticks [of t E name "take 20 entries" "[]"] by (simp_all add: r_def)
  moreover have "length (take 20 entries) \<le> 20" by simp
  ultimately have "t \<le> snd r" and "snd r \<le> t + 20" by linarith+
  then show ?thesis unfolding eq by simp
qed

lemma normalize_entry_source:
  "normalize_entry E now name e = Inr item \<Longrightarrow> source item = name"
  by (auto simp: normalize_entry_def split: sum.splits)

lemma fetch_rss_source:
  assumes "x \<in> set (fst (fetch_rss E t url name))"
  shows "source x = name"
proof (cases "feedparser_parse E url")
  case (Inl e)
  with assms show ?thesis by (simp add: fetch_rss_failed)
next
  case (Inr entries)
  from assms have "Inr x \<in> set (map (\<lambda>p. normalize_entry E (datetime_now E (fst p)) name (snd p))
                  (List.enumerate t (take 20 entries)))"
    unfolding fetch_rss_prefix [OF Inr] by (rule ok_prefix_mem)
  then obtain p where "normalize_entry E (datetime_now E (fst p)) name (snd p) = Inr x"
    by auto
  then show ?thesis by (rule normalize_entry_source)
qed

lemma fetched_items_per_source:
  "length (filter (\<lambda>x. source x = s) (fetched_items E t srcs))
     \<le> 20 * length (filter (\<lambda>p. fst p = s) srcs)"
proof (induction srcs arbitrary: t)
  case Nil
  show ?case by simp
next
  case (Cons p srcs)
  obtain n url where p: "p = (n, url)" by (cases p)
  obtain items t' where f: "fetch_rss E t url n = (items, t')" by (cases "fetch_rss E t url n")
  have src: "\<forall>x\<in>set items. source x = n"
    using fetch_rss_source [of _ E t url n] f by simp
  have len: "length items \<le> 20"
    using fetch_rss_length [of E t url n] f by simp
  show ?case
  proof (cases "n = s")
    case True
    have "length (filter (\<lambda>x. source x = s) items) \<le> 20"
      by (rule order_trans [OF length_filter_le len])
    moreover from True f have "fetch_rss E t url s = (items, t')" by simp
    ultimately show ?thesis using Cons.IH [of t'] by (simp add: p True)
  next
    case False
    with src have "filter (\<lambda>x. source x = s) items = []"
      by (auto simp: filter_empty_conv)
    with Cons.IH [of t'] False show ?thesis by (simp add: p f)
  qed
qed

lemma distinct_fst_count:
  "distinct (map fst ps) \<Longrightarrow> length (filter (\<lambda>p. fst p = s) ps) \<le> 1"
proof (induction ps)
  case Nil
  show ?case by simp
next
  case (Cons p ps)
  show ?case
  proof (cases "fst p = s")
    case True
    with Cons.prems have "filter (\<lambda>q. fst q = s) ps = []"
      by (fastforce simp: filter_empty_conv image_iff)
    with True show ?thesis by simp
  next
    case False
    with Cons show ?thesis by simp
  qed
qed

lemma RSS_SOURCES_distinct: "distinct (map fst RSS_SOURCES)"
  by (simp add: RSS_SOURCES_def u_def)

lemma subseq_filter_length:
  "subseq ys xs \<Longrightarrow> length (filter P ys) \<le> length (filter P xs)"
proof -
  assume "subseq ys xs"
  then have "subseq (filter P ys) (filter P xs)" by (rule subseq_filter)
  then show ?thesis by (rule list_emb_length)
qed




lemma fetch_all_fst:
  "fst (fetch_all E t hours) =
     (case sub_hours (datetime_now E t) hours of
        Inl e \<Rightarrow> Inl e
      | Inr cutoff \<Rightarrow>
          Inr (sort_by_published_reverse (deduplicate E
                 (filter (\<lambda>item. in_window cutoff item \<and> is_relevant E item)
                    (fetched_items E (Suc t) RSS_SOURCES)))))"
proof (cases "sub_hours (datetime_now E t) hours")
  case (Inl e)
  then show ?thesis by (simp add: fetch_all_def)
next
  case (Inr cutoff)
  obtain xs t2 where f: "fetch_sources E cutoff (Suc t) RSS_SOURCES [] = (xs, t2)"
    by (cases "fetch_sources E cutoff (Suc t) RSS_SOURCES []")
  from fetch_sources_acc [of E cutoff "Suc t" RSS_SOURCES "[]"] f
  have "xs = filter (\<lambda>item. in_window cutoff item \<and> is_relevant E item)
                (fetched_items E (Suc t) RSS_SOURCES)" by simp
  with Inr f show ?thesis by (simp add: fetch_all_def)
qed



lemma fetch_all_corpus:
  assumes "fst (fetch_all E t hours) = Inr corpus"
  shows "\<exists>cutoff. sub_hours (datetime_now E t) hours = Inr cutoff \<and>
           corpus = sort_by_published_reverse (deduplicate E
             (filter (\<lambda>item. in_window cutoff item \<and> is_relevant E item)
                (fetched_items E (Suc t) RSS_SOURCES)))"
  using assms unfolding fetch_all_fst by (cases "sub_hours (datetime_now E t) hours") auto

lemma corpus_per_source:
  assumes "fst (fetch_all E t hours) = Inr corpus"
  shows "length (filter (\<lambda>x. source x = s) corpus) \<le> 20"
proof -
  from fetch_all_corpus [OF assms] obtain cutoff where
    c: "corpus = sort_by_published_reverse (deduplicate E
             (filter (\<lambda>item. in_window cutoff item \<and> is_relevant E item)
                (fetched_items E (Suc t) RSS_SOURCES)))" by blast
  let ?F = "fetched_items E (Suc t) RSS_SOURCES"
  let ?P = "\<lambda>item. in_window cutoff item \<and> is_relevant E item"
  let ?S = "\<lambda>x. source x = s"
  have "length (filter ?S corpus) = size (filter_mset ?S (mset corpus))"
    by (simp flip: mset_filter)
  also have "\<dots> = length (filter ?S (deduplicate E (filter ?P ?F)))"
    by (simp add: c sort_reverse_mset flip: mset_filter)
  also have "\<dots> \<le> length (filter ?S (filter ?P ?F))"
    by (rule subseq_filter_length) (simp add: deduplicate_def dedup_loop_subseq)
  also have "\<dots> \<le> length (filter ?S ?F)"
    by (rule subseq_filter_length) simp
  also have "\<dots> \<le> 20 * length (filter (\<lambda>p. fst p = s) RSS_SOURCES)"
    by (rule fetched_items_per_source)
  also have "\<dots> \<le> 20 * 1"
    by (rule mult_le_mono2) (rule distinct_fst_count [OF RSS_SOURCES_distinct])
  finally show ?thesis by simp
qed


section \<open>Evaluation in the sample environment\<close>

lemma sample_lib:
  "str_lower (sample_run a b) = ascii_lower"
  "html_unescape (sample_run a b) = (\<lambda>s. s)"
  "md5_hexdigest (sample_run a b) = sample_digest"
  "strftime (sample_run a b) = posix_strftime"
  "datetime_now (sample_run a b) k = sample_now + int k * 1000000"
  by (simp_all add: sample_run_def sample_env_def)

lemma sample_parse:
  "feedparser_parse (sample_run a b) (u ''https://hnrss.org/newest?q=AI+agent+OR+LLM+OR+GPT+OR+Claude'') = a"
  "feedparser_parse (sample_run a b) (u ''https://www.technologyreview.com/topic/artificial-intelligence/feed'') = b"
  "feedparser_parse (sample_run a b) (u ''https://openai.com/blog/rss.xml'') = Inr []"
  "feedparser_parse (sample_run a b) (u ''https://blog.google/technology/ai/rss/'') = Inr []"
  "feedparser_parse (sample_run a b) (u ''https://huggingface.co/blog/feed.xml'') = Inr []"
  "feedparser_parse (sample_run a b) (u ''https://www.theverge.com/rss/ai-artificial-intelligence/index.xml'') = Inr []"
  "feedparser_parse (sample_run a b) (u ''https://rsshub.app/jiqizhixin'') = Inr []"
  "feedparser_parse (sample_run a b) (u ''https://rsshub.app/qbitai'') = Inr []"
  "feedparser_parse (sample_run a b) (u ''https://rsshub.app/leiphone/category/ai'') = Inr []"
  by (simp_all add: sample_run_def sample_feeds_def RSS_SOURCES_def u_def)

lemma fetch_rss_empty:
  "feedparser_parse E url = Inr [] \<Longrightarrow> fetch_rss E t url name = ([], t)"
  by (simp add: fetch_rss_def)

lemma sample_fetched:
  "fetched_items (sample_run a b) t RSS_SOURCES =
     fst (fetch_rss (sample_run a b) t (snd (RSS_SOURCES ! 0)) (fst (RSS_SOURCES ! 0)))
     @ fst (fetch_rss (sample_run a b)
              (snd (fetch_rss (sample_run a b) t (snd (RSS_SOURCES ! 0)) (fst (RSS_SOURCES ! 0))))
              (snd (RSS_SOURCES ! 1)) (fst (RSS_SOURCES ! 1)))"
proof -
  let ?E = "sample_run a b"
  obtain i0 t0 where f0: "fetch_rss ?E t
      (u ''https://hnrss.org/newest?q=AI+agent+OR+LLM+OR+GPT+OR+Claude'')
      (u ''Hacker News (AI)'') = (i0, t0)"
    by (cases "fetch_rss ?E t
      (u ''https://hnrss.org/newest?q=AI+agent+OR+LLM+OR+GPT+OR+Claude'')
      (u ''Hacker News (AI)'')")
  obtain i1 t1 where f1: "fetch_rss ?E t0
      (u ''https://www.technologyreview.com/topic/artificial-intelligence/feed'')
      (u ''MIT Tech Review AI'') = (i1, t1)"
    by (cases "fetch_rss ?E t0
      (u ''https://www.technologyreview.com/topic/artificial-intelligence/feed'')
      (u ''MIT Tech Review AI'')")
  show ?thesis
    by (simp add: RSS_SOURCES_def f0 f1 fetch_rss_empty sample_parse)
qed



lemmas calendar_defs = mk_datetime_def ymd2ord_def days_before_year_def days_before_month_def
  days_in_month_def is_leap_def sample_now_def

lemma norm_gpt:
  "normalize_entry (sample_run a b) now (u ''Hacker News (AI)'') entry_gpt = Inr item_gpt"
  by (simp add: normalize_entry_def entry_published_def entry_summary_def entry_gpt_def
      item_gpt_def calendar_defs)

lemma norm_weather:
  "normalize_entry (sample_run a b) now (u ''Hacker News (AI)'') entry_weather = Inr item_weather"
  by (simp add: normalize_entry_def entry_published_def entry_summary_def entry_weather_def
      item_weather_def calendar_defs)

lemma norm_claude:
  "normalize_entry (sample_run a b) now (u ''Hacker News (AI)'') entry_claude = Inr item_claude"
  by (simp add: normalize_entry_def entry_published_def entry_summary_def entry_claude_def
      item_claude_def calendar_defs)

lemma norm_bad:
  "normalize_entry (sample_run a b) now (u ''Hacker News (AI)'') entry_bad
     = Inl (ValueError, u ''second must be in 0..59'')"
  by (simp add: normalize_entry_def entry_published_def entry_summary_def entry_bad_def
      calendar_defs)

lemma clean_sample: "clean_html (sample_run a b) (u ''<p>more  on GPT</p>'') = u ''more on GPT''"
  by (simp add: clean_html_def sample_lib u_def strip_def is_space_def)

lemma norm_gpt_again:
  "normalize_entry (sample_run a b) now (u ''MIT Tech Review AI'') entry_gpt_again = Inr item_gpt_again"
  by (simp add: normalize_entry_def entry_published_def entry_summary_def entry_gpt_again_def
      item_gpt_again_def calendar_defs clean_sample) (simp add: u_def)

lemma norm_undated:
  "normalize_entry (sample_run a b) (sample_now + 3000000) (u ''MIT Tech Review AI'') entry_undated = Inr item_undated"
  by (simp add: normalize_entry_def entry_published_def entry_summary_def entry_undated_def
      item_undated_def)

lemma relevant_samples:
  "is_relevant (sample_run a b) item_gpt"
  "\<not> is_relevant (sample_run a b) item_weather"
  "is_relevant (sample_run a b) item_claude"
  "is_relevant (sample_run a b) item_gpt_again"
  "is_relevant (sample_run a b) item_undated"
  by (simp_all add: is_relevant_def sample_lib KEYWORDS_def ascii_lower_def u_def
      item_gpt_def item_weather_def item_claude_def item_gpt_again_def item_undated_def sublist_code prefix_code)
lemma sample_cutoff:
  "sub_hours (datetime_now (sample_run a b) 0) 24 = Inr (sample_now - 86400000000)"
  by (simp add: sample_lib sub_hours_def sample_now_def MAX_DATETIME_def)

lemma fetch_rss_A0:
  "fetch_rss (sample_run (Inr [entry_gpt, entry_weather, entry_claude]) b) (Suc 0)
     (u ''https://hnrss.org/newest?q=AI+agent+OR+LLM+OR+GPT+OR+Claude'') (u ''Hacker News (AI)'')
   = ([item_gpt, item_weather, item_claude], 4)"
  by (simp add: fetch_rss_def sample_parse norm_gpt norm_weather norm_claude)

lemma fetch_rss_A1:
  "fetch_rss (sample_run a (Inr [entry_gpt_again])) 4
     (u ''https://www.technologyreview.com/topic/artificial-intelligence/feed'')
     (u ''MIT Tech Review AI'')
   = ([item_gpt_again], 5)"
  by (simp add: fetch_rss_def sample_parse norm_gpt_again)

lemma fetch_rss_B0:
  "fetch_rss (sample_run (Inr [entry_gpt, entry_bad, entry_claude]) b) (Suc 0)
     (u ''https://hnrss.org/newest?q=AI+agent+OR+LLM+OR+GPT+OR+Claude'') (u ''Hacker News (AI)'')
   = ([item_gpt], 3)"
  by (simp add: fetch_rss_def sample_parse norm_gpt norm_bad)

lemma fetch_rss_B1:
  "fetch_rss (sample_run a (Inr [entry_undated])) 3
     (u ''https://www.technologyreview.com/topic/artificial-intelligence/feed'')
     (u ''MIT Tech Review AI'')
   = ([item_undated], 4)"
  using norm_undated [of a "Inr [entry_undated]"]
  by (simp add: fetch_rss_def sample_parse sample_lib)

lemma fetched_A:
  "fetched_items (sample_run (Inr [entry_gpt, entry_weather, entry_claude]) (Inr [entry_gpt_again])) (Suc 0) RSS_SOURCES
     = [item_gpt, item_weather, item_claude, item_gpt_again]"
  unfolding sample_fetched by (simp add: RSS_SOURCES_def fetch_rss_A0 fetch_rss_A1)

lemma fetched_B:
  "fetched_items (sample_run (Inr [entry_gpt, entry_bad, entry_claude]) (Inr [entry_undated])) (Suc 0) RSS_SOURCES
     = [item_gpt, item_undated]"
  unfolding sample_fetched by (simp add: RSS_SOURCES_def fetch_rss_B0 fetch_rss_B1)

lemma window_samples:
  "in_window (sample_now - 86400000000) item_gpt"
  "\<not> in_window (sample_now - 86400000000) item_weather"
  "in_window (sample_now - 86400000000) item_claude"
  "in_window (sample_now - 86400000000) item_gpt_again"
  "in_window (sample_now - 86400000000) item_undated"
  by (simp_all add: in_window_def item_gpt_def item_weather_def item_claude_def
      item_gpt_again_def item_undated_def)

lemma run_ids:
  "NewsItem_id (sample_run a b) item_gpt = [100, 98, 101, 109]"
  "NewsItem_id (sample_run a b) item_claude = [100, 100, 101, 109]"
  "NewsItem_id (sample_run a b) item_gpt_again = [100, 98, 101, 109]"
  "NewsItem_id (sample_run a b) item_undated = [100, 101, 101, 109]"
  by (simp_all add: NewsItem_id_def sample_lib sample_digest_def item_gpt_def
      item_claude_def item_gpt_again_def item_undated_def u_def)

lemma dedup_A:
  "deduplicate (sample_run a b) [item_gpt, item_claude, item_gpt_again] = [item_gpt, item_claude]"
  by (simp add: deduplicate_def dedup_loop.simps run_ids)

lemma dedup_B:
  "deduplicate (sample_run a b) [item_gpt, item_undated] = [item_gpt, item_undated]"
  by (simp add: deduplicate_def dedup_loop.simps run_ids)

lemma sort_A: "sort_by_published_reverse [item_gpt, item_claude] = [item_gpt, item_claude]"
  by (simp add: sort_by_published_reverse_def item_gpt_def item_claude_def)

lemma sort_B: "sort_by_published_reverse [item_gpt, item_undated] = [item_undated, item_gpt]"
  by (simp add: sort_by_published_reverse_def item_gpt_def item_undated_def)

lemma fetch_all_A:
  "fst (fetch_all (sample_run (Inr [entry_gpt, entry_weather, entry_claude]) (Inr [entry_gpt_again])) 0 24)
     = Inr [item_gpt, item_claude]"
  by (simp add: fetch_all_fst sample_cutoff fetched_A window_samples relevant_samples
      dedup_A sort_A)

lemma fetch_all_B:
  "fst (fetch_all (sample_run (Inr [entry_gpt, entry_bad, entry_claude]) (Inr [entry_undated])) 0 24)
     = Inr [item_undated, item_gpt]"
  by (simp add: fetch_all_fst sample_cutoff fetched_B window_samples relevant_samples
      dedup_B sort_B)
lemma fetch_rss_loop_replicate:
  "fetch_rss_loop (sample_run a b) t (u ''Hacker News (AI)'') (replicate n entry_gpt) acc
     = (acc @ replicate n item_gpt, t + n)"
proof (induction n arbitrary: t acc)
  case 0
  show ?case by simp
next
  case (Suc n)
  show ?case by (simp add: norm_gpt Suc.IH replicate_app_Cons_same)
qed

lemma fetch_rss_21:
  "fetch_rss (sample_run (Inr (replicate 21 entry_gpt)) b) (Suc 0)
     (u ''https://hnrss.org/newest?q=AI+agent+OR+LLM+OR+GPT+OR+Claude'') (u ''Hacker News (AI)'')
   = (replicate 20 item_gpt, 21)"
  by (simp add: fetch_rss_def sample_parse fetch_rss_loop_replicate)

lemma dedup_loop_seen:
  "\<forall>x\<in>set xs. NewsItem_id E x \<in> seen \<Longrightarrow> dedup_loop E seen [] xs = []"
  by (induction xs) (simp_all add: dedup_loop_Cons)

lemma deduplicate_same_id:
  "\<forall>y\<in>set xs. NewsItem_id E y = NewsItem_id E x \<Longrightarrow> deduplicate E (x # xs) = [x]"
  by (simp add: deduplicate_def dedup_loop_Cons dedup_loop_seen)

lemma fetched_21:
  "fetched_items (sample_run (Inr (replicate 21 entry_gpt)) (Inr [entry_gpt_again])) (Suc 0) RSS_SOURCES
     = replicate 20 item_gpt @ [item_gpt_again]"
proof -
  have "fetch_rss (sample_run (Inr (replicate 21 entry_gpt)) (Inr [entry_gpt_again])) 21
     (u ''https://www.technologyreview.com/topic/artificial-intelligence/feed'')
     (u ''MIT Tech Review AI'') = ([item_gpt_again], 22)"
    by (simp add: fetch_rss_def sample_parse norm_gpt_again)
  then show ?thesis
    unfolding sample_fetched by (simp add: RSS_SOURCES_def fetch_rss_21)
qed

lemma fetch_all_21:
  "fst (fetch_all (sample_run (Inr (replicate 21 entry_gpt)) (Inr [entry_gpt_again])) 0 24)
     = Inr [item_gpt]"
proof -
  have r: "replicate 20 item_gpt @ [item_gpt_again] = item_gpt # (replicate 19 item_gpt @ [item_gpt_again])"
    by (simp add: eval_nat_numeral)
  have d: "deduplicate (sample_run (Inr (replicate 21 entry_gpt)) (Inr [entry_gpt_again]))
             (item_gpt # (replicate 19 item_gpt @ [item_gpt_again])) = [item_gpt]"
    by (rule deduplicate_same_id) (auto simp: run_ids)
  show ?thesis
    by (simp add: fetch_all_fst sample_cutoff fetched_21 window_samples relevant_samples)
       (simp add: r d sort_by_published_reverse_def)
qed


section \<open>The per-source cap\<close>

text \<open>
  C10: \<open>fetch_rss\<close> returns at most 20 items and reads the clock at most 20 times (once per
  entry it starts to normalize); its items are normalizations of the first 20 entries of
  the feed, in order; and in the corpus \<open>fetch_all\<close> returns no source has more than 20
  items. The cap is applied where the feed is read, before the merge and the filters.
\<close>

theorem per_source_cap:
  "length (fst (fetch_rss E t url name)) \<le> 20 \<and>
   snd (fetch_rss E t url name) \<le> t + 20 \<and>
   (\<forall>entries. feedparser_parse E url = Inr entries \<longrightarrow>
      fst (fetch_rss E t url name) =
        ok_prefix (map (\<lambda>p. normalize_entry E (datetime_now E (fst p)) name (snd p))
                     (List.enumerate t (take 20 entries)))) \<and>
   (\<forall>corpus s. fst (fetch_all E t0 hours) = Inr corpus \<longrightarrow>
      length (filter (\<lambda>x. source x = s) corpus) \<le> 20)"
  using fetch_rss_length [of E t url name] fetch_rss_ticks [of t E url name]
    fetch_rss_prefix [of E url _ t name] corpus_per_source [of E t0 hours]
  by blast


theorem per_source_cap_witness:
  "feedparser_parse (sample_run (Inr (replicate 21 entry_gpt)) (Inr [entry_gpt_again]))
     (u ''https://hnrss.org/newest?q=AI+agent+OR+LLM+OR+GPT+OR+Claude'')
     = Inr (replicate 21 entry_gpt) \<and>
   fetch_rss (sample_run (Inr (replicate 21 entry_gpt)) (Inr [entry_gpt_again])) (Suc 0)
     (u ''https://hnrss.org/newest?q=AI+agent+OR+LLM+OR+GPT+OR+Claude'') (u ''Hacker News (AI)'')
     = (replicate 20 item_gpt, 21) \<and>
   fst (fetch_all (sample_run (Inr (replicate 21 entry_gpt)) (Inr [entry_gpt_again])) 0 24)
     = Inr [item_gpt] \<and>
   length (replicate 20 item_gpt) \<le> 20 \<and>
   length (filter (\<lambda>x. source x = u ''Hacker News (AI)'') [item_gpt]) \<le> 20"
  using per_source_cap [of "sample_run (Inr (replicate 21 entry_gpt)) (Inr [entry_gpt_again])"
      "Suc 0" "u ''https://hnrss.org/newest?q=AI+agent+OR+LLM+OR+GPT+OR+Claude''"
      "u ''Hacker News (AI)''" 0 24, THEN conjunct1]
  by (simp add: fetch_rss_21 fetch_all_21 sample_parse)

section \<open>The time window\<close>


lemma undated_published: "undated entry \<Longrightarrow> entry_published now entry = Inr now"
  by (auto simp: undated_def entry_published_def)

lemma normalize_undated:
  "undated entry \<Longrightarrow>
   \<exists>item. normalize_entry E now name entry = Inr item \<and> published item = now"
  by (simp add: normalize_entry_def undated_published)

lemma sub_hours_le:
  "sub_hours now hours = Inr cutoff \<Longrightarrow> 0 \<le> hours \<Longrightarrow> cutoff \<le> now"
  by (auto simp: sub_hours_def split: if_splits)

lemma corpus_subset:
  assumes "fst (fetch_all E t hours) = Inr corpus"
    and "sub_hours (datetime_now E t) hours = Inr cutoff"
  shows "set corpus \<subseteq> {x \<in> set (fetched_items E (Suc t) RSS_SOURCES).
                          in_window cutoff x \<and> is_relevant E x}"
proof -
  from fetch_all_corpus [OF assms(1)] assms(2)
  have c: "corpus = sort_by_published_reverse (deduplicate E
             (filter (\<lambda>item. in_window cutoff item \<and> is_relevant E item)
                (fetched_items E (Suc t) RSS_SOURCES)))" by auto
  have "set corpus \<subseteq> set (filter (\<lambda>item. in_window cutoff item \<and> is_relevant E item)
                (fetched_items E (Suc t) RSS_SOURCES))"
    unfolding c sort_reverse_set deduplicate_def by (rule dedup_loop_set)
  then show ?thesis by auto
qed


text \<open>
  C9: with the cutoff computed from the reading of the clock at the start of
  \<open>fetch_all\<close>, an item passes the time-window test exactly when its \<open>published\<close> is at or
  after the cutoff, and every item of the corpus has passed it. An entry with no publish
  and no update time is normalized without error to an item stamped with the reading of
  the clock taken for it, and for a window of zero or more hours that item passes the
  test, the reading being no earlier than the one the cutoff was computed from.
\<close>

theorem time_window_filter:
  "sub_hours (datetime_now E t) hours = Inr cutoff \<Longrightarrow>
   (\<forall>item. in_window cutoff item \<longleftrightarrow> cutoff \<le> published item) \<and>
   (\<forall>corpus. fst (fetch_all E t hours) = Inr corpus \<longrightarrow>
      (\<forall>x\<in>set corpus. cutoff \<le> published x)) \<and>
   (\<forall>k name entry.
      0 \<le> hours \<and> datetime_now E t \<le> datetime_now E k \<and> undated entry \<longrightarrow>
      (\<exists>item. normalize_entry E (datetime_now E k) name entry = Inr item \<and>
              published item = datetime_now E k \<and> in_window cutoff item))"
proof (intro conjI allI impI)
  fix item
  show "in_window cutoff item \<longleftrightarrow> cutoff \<le> published item" by (simp add: in_window_def)
next
  fix corpus
  assume c: "sub_hours (datetime_now E t) hours = Inr cutoff"
    and f: "fst (fetch_all E t hours) = Inr corpus"
  from corpus_subset [OF f c] show "\<forall>x\<in>set corpus. cutoff \<le> published x"
    by (auto simp: in_window_def)
next
  fix k name entry
  assume c: "sub_hours (datetime_now E t) hours = Inr cutoff"
    and h: "0 \<le> hours \<and> datetime_now E t \<le> datetime_now E k \<and> undated entry"
  from h normalize_undated [of entry E "datetime_now E k" name]
  obtain item where i: "normalize_entry E (datetime_now E k) name entry = Inr item"
    "published item = datetime_now E k" by blast
  from sub_hours_le [OF c] h have "cutoff \<le> datetime_now E k" by simp
  with i show "\<exists>item. normalize_entry E (datetime_now E k) name entry = Inr item \<and>
              published item = datetime_now E k \<and> in_window cutoff item"
    by (simp add: in_window_def)
qed

theorem time_window_filter_witness:
  "sub_hours (datetime_now (sample_run (Inr [entry_gpt, entry_bad, entry_claude]) (Inr [entry_undated])) 0) 24
     = Inr (sample_now - 86400000000) \<and>
   (0::int) \<le> 24 \<and>
   datetime_now (sample_run (Inr [entry_gpt, entry_bad, entry_claude]) (Inr [entry_undated])) 0
     \<le> datetime_now (sample_run (Inr [entry_gpt, entry_bad, entry_claude]) (Inr [entry_undated])) 3 \<and>
   undated entry_undated \<and>
   normalize_entry (sample_run (Inr [entry_gpt, entry_bad, entry_claude]) (Inr [entry_undated]))
     (datetime_now (sample_run (Inr [entry_gpt, entry_bad, entry_claude]) (Inr [entry_undated])) 3)
     (u ''MIT Tech Review AI'') entry_undated = Inr item_undated \<and>
   in_window (sample_now - 86400000000) item_undated \<and>
   fst (fetch_all (sample_run (Inr [entry_gpt, entry_bad, entry_claude]) (Inr [entry_undated])) 0 24)
     = Inr [item_undated, item_gpt] \<and>
   sample_now - 86400000000 \<le> published item_undated \<and>
   sample_now - 86400000000 \<le> published item_gpt"
proof -
  let ?E = "sample_run (Inr [entry_gpt, entry_bad, entry_claude]) (Inr [entry_undated])"
  have u: "undated entry_undated" by (simp add: undated_def entry_undated_def)
  have n: "normalize_entry ?E (datetime_now ?E 3) (u ''MIT Tech Review AI'') entry_undated
             = Inr item_undated"
    using norm_undated [of "Inr [entry_gpt, entry_bad, entry_claude]" "Inr [entry_undated]"]
    by (simp add: sample_lib)
  have m: "datetime_now ?E 0 \<le> datetime_now ?E 3" by (simp add: sample_lib)
  note t = time_window_filter [OF sample_cutoff, of "Inr [entry_gpt, entry_bad, entry_claude]"
      "Inr [entry_undated]"]
  from t have w: "in_window (sample_now - 86400000000) item_undated
      \<longleftrightarrow> sample_now - 86400000000 \<le> published item_undated" by blast
  from t fetch_all_B have p: "\<forall>x\<in>set [item_undated, item_gpt]. sample_now - 86400000000 \<le> published x"
    by blast
  have z: "(0::int) \<le> 24" by simp
  from t u m z have "\<exists>item. normalize_entry ?E (datetime_now ?E 3) (u ''MIT Tech Review AI'') entry_undated = Inr item \<and>
              published item = datetime_now ?E 3 \<and> in_window (sample_now - 86400000000) item"
    by blast
  with n have "in_window (sample_now - 86400000000) item_undated" by simp
  with p u n m show ?thesis by (simp add: sample_cutoff fetch_all_B)
qed

section \<open>Membership in the corpus\<close>


lemma find_distinct_key:
  "distinct (map f ys) \<Longrightarrow> x \<in> set ys \<Longrightarrow> find (\<lambda>y. f y = f x) ys = Some x"
  by (induction ys) (auto simp: image_iff)

lemma find_Some_mem: "find P ys = Some x \<Longrightarrow> x \<in> set ys"
  by (induction ys) (auto split: if_splits)

lemma deduplicate_mem_iff:
  "x \<in> set (deduplicate E ys) \<longleftrightarrow> find (\<lambda>y. NewsItem_id E y = NewsItem_id E x) ys = Some x"
proof
  assume "x \<in> set (deduplicate E ys)"
  then have "find (\<lambda>y. NewsItem_id E y = NewsItem_id E x) (deduplicate E ys) = Some x"
    unfolding deduplicate_def by (intro find_distinct_key dedup_loop_distinct)
  then show "find (\<lambda>y. NewsItem_id E y = NewsItem_id E x) ys = Some x"
    by (simp add: deduplicate_def dedup_loop_find)
next
  assume "find (\<lambda>y. NewsItem_id E y = NewsItem_id E x) ys = Some x"
  then have "find (\<lambda>y. NewsItem_id E y = NewsItem_id E x) (deduplicate E ys) = Some x"
    by (simp add: deduplicate_def dedup_loop_find)
  then show "x \<in> set (deduplicate E ys)" by (rule find_Some_mem)
qed

lemma deduplicate_represents:
  assumes "x \<in> set ys"
  shows "\<exists>y\<in>set (deduplicate E ys). NewsItem_id E y = NewsItem_id E x"
proof -
  from assms obtain y where y: "find (\<lambda>y. NewsItem_id E y = NewsItem_id E x) ys = Some y"
    by (cases "find (\<lambda>y. NewsItem_id E y = NewsItem_id E x) ys") (auto simp: find_None_iff)
  then have "find (\<lambda>y. NewsItem_id E y = NewsItem_id E x) (deduplicate E ys) = Some y"
    by (simp add: deduplicate_def dedup_loop_find)
  then have "y \<in> set (deduplicate E ys)" and "NewsItem_id E y = NewsItem_id E x"
    by (auto simp: find_Some_iff)
  then show ?thesis by blast
qed

lemma sample_items_distinct:
  "item_gpt_again \<noteq> item_gpt" "item_gpt_again \<noteq> item_claude" "item_claude \<noteq> item_gpt"
  by (simp_all add: item_gpt_again_def item_gpt_def item_claude_def u_def)


text \<open>
  C3, as stated, fails: of two fetched items with the same link that both pass the
  relevance test and the time-window test, only the one fetched first is in the corpus.
\<close>

theorem filter_conjunction_counterexample:
  "fst (fetch_all (sample_run (Inr [entry_gpt, entry_weather, entry_claude]) (Inr [entry_gpt_again])) 0 24)
     = Inr [item_gpt, item_claude] \<and>
   sub_hours (datetime_now (sample_run (Inr [entry_gpt, entry_weather, entry_claude]) (Inr [entry_gpt_again])) 0) 24
     = Inr (sample_now - 86400000000) \<and>
   item_gpt_again \<in> set (fetched_items
      (sample_run (Inr [entry_gpt, entry_weather, entry_claude]) (Inr [entry_gpt_again])) (Suc 0) RSS_SOURCES) \<and>
   in_window (sample_now - 86400000000) item_gpt_again \<and>
   is_relevant (sample_run (Inr [entry_gpt, entry_weather, entry_claude]) (Inr [entry_gpt_again])) item_gpt_again \<and>
   item_gpt_again \<notin> set [item_gpt, item_claude]"
  by (simp add: fetch_all_A sample_cutoff fetched_A window_samples relevant_samples
      sample_items_distinct)


text \<open>
  C3, amended: an item is in the corpus exactly when it is the first fetched item with its
  fingerprint among the fetched items that pass both tests. So every item of the corpus
  was fetched and passes both tests, and every fetched item that passes both tests has an
  item of the same fingerprint in the corpus.
\<close>

theorem corpus_membership:
  "fst (fetch_all E t hours) = Inr corpus \<Longrightarrow>
   \<exists>cutoff. sub_hours (datetime_now E t) hours = Inr cutoff \<and>
     (\<forall>x. x \<in> set corpus \<longleftrightarrow>
        find (\<lambda>y. NewsItem_id E y = NewsItem_id E x)
          (filter (\<lambda>i. in_window cutoff i \<and> is_relevant E i)
             (fetched_items E (Suc t) RSS_SOURCES)) = Some x) \<and>
     (\<forall>x\<in>set corpus. x \<in> set (fetched_items E (Suc t) RSS_SOURCES) \<and>
        in_window cutoff x \<and> is_relevant E x) \<and>
     (\<forall>x\<in>set (fetched_items E (Suc t) RSS_SOURCES).
        in_window cutoff x \<and> is_relevant E x \<longrightarrow>
        (\<exists>y\<in>set corpus. NewsItem_id E y = NewsItem_id E x))"
proof -
  assume f: "fst (fetch_all E t hours) = Inr corpus"
  from fetch_all_corpus [OF f] obtain cutoff where
    c: "sub_hours (datetime_now E t) hours = Inr cutoff" and
    k: "corpus = sort_by_published_reverse (deduplicate E
             (filter (\<lambda>item. in_window cutoff item \<and> is_relevant E item)
                (fetched_items E (Suc t) RSS_SOURCES)))" by blast
  let ?F = "filter (\<lambda>i. in_window cutoff i \<and> is_relevant E i) (fetched_items E (Suc t) RSS_SOURCES)"
  have s: "set corpus = set (deduplicate E ?F)" by (simp add: k sort_reverse_set)
  have a: "\<forall>x. x \<in> set corpus \<longleftrightarrow> find (\<lambda>y. NewsItem_id E y = NewsItem_id E x) ?F = Some x"
    by (simp add: s deduplicate_mem_iff)
  have b: "\<forall>x\<in>set corpus. x \<in> set (fetched_items E (Suc t) RSS_SOURCES) \<and>
        in_window cutoff x \<and> is_relevant E x"
    using corpus_subset [OF f c] by auto
  have d: "\<forall>x\<in>set (fetched_items E (Suc t) RSS_SOURCES).
        in_window cutoff x \<and> is_relevant E x \<longrightarrow>
        (\<exists>y\<in>set corpus. NewsItem_id E y = NewsItem_id E x)"
  proof (intro ballI impI)
    fix x
    assume "x \<in> set (fetched_items E (Suc t) RSS_SOURCES)"
      and "in_window cutoff x \<and> is_relevant E x"
    then have "x \<in> set ?F" by simp
    then show "\<exists>y\<in>set corpus. NewsItem_id E y = NewsItem_id E x"
      unfolding s by (rule deduplicate_represents)
  qed
  from c a b d show ?thesis by blast
qed


theorem corpus_membership_witness:
  "fst (fetch_all (sample_run (Inr [entry_gpt, entry_weather, entry_claude]) (Inr [entry_gpt_again])) 0 24)
     = Inr [item_gpt, item_claude] \<and>
   sub_hours (datetime_now (sample_run (Inr [entry_gpt, entry_weather, entry_claude]) (Inr [entry_gpt_again])) 0) 24
     = Inr (sample_now - 86400000000) \<and>
   (\<forall>x. x \<in> set [item_gpt, item_claude] \<longleftrightarrow>
        find (\<lambda>y. NewsItem_id (sample_run (Inr [entry_gpt, entry_weather, entry_claude]) (Inr [entry_gpt_again])) y
                 = NewsItem_id (sample_run (Inr [entry_gpt, entry_weather, entry_claude]) (Inr [entry_gpt_again])) x)
          [item_gpt, item_claude, item_gpt_again] = Some x)"
proof -
  let ?E = "sample_run (Inr [entry_gpt, entry_weather, entry_claude]) (Inr [entry_gpt_again])"
  have F: "filter (\<lambda>i. in_window (sample_now - 86400000000) i \<and> is_relevant ?E i)
             (fetched_items ?E (Suc 0) RSS_SOURCES) = [item_gpt, item_claude, item_gpt_again]"
    by (simp add: fetched_A window_samples relevant_samples)
  from corpus_membership [OF fetch_all_A] F
  have "\<forall>x. x \<in> set [item_gpt, item_claude] \<longleftrightarrow>
        find (\<lambda>y. NewsItem_id ?E y = NewsItem_id ?E x) [item_gpt, item_claude, item_gpt_again] = Some x"
    by (simp add: sample_cutoff)
  then show ?thesis by (simp add: fetch_all_A sample_cutoff)
qed

section \<open>Failures while reading a source\<close>



















section \<open>The Formatter\<close>












section \<open>The publishing loop\<close>







































section \<open>Failed submissions\<close>























end
